theory Spec2Isabelle
  imports Main "HOL-Library.AList"
begin

section \<open>Deferred values and their combinators\<close>

text \<open>
  The component in \<^verbatim>\<open>realtime-lambda-subscriber.ts\<close> wires three resources together
  through values that are only known after provisioning.
\<close>

text \<open>
  Modelled from the spec: the types \<^verbatim>\<open>Output<T>\<close> and \<^verbatim>\<open>Input<T>\<close> of the
  deployment library are not part of the sources. Section 3: a deferred value is the
  value it eventually resolves to, together with the identities of the resources it
  depends on. An input is either a plain value or a deferred one.
\<close>

record 'a Output =
  resolved :: 'a
  deps :: "string set"

datatype 'a input = Plain 'a | Out "'a Output"

text \<open>
  Modelled from the spec: \<^verbatim>\<open>output\<close> of the deployment library is not part of the
  sources. Section 4.1: lift wraps a concrete value or passes an existing deferred
  value through unchanged, including its dependency set.
\<close>

fun "output" :: "'a input \<Rightarrow> 'a Output" where
  "output (Plain v) = \<lparr>resolved = v, deps = {}\<rparr>"
| "output (Out d) = d"

text \<open>
  A template literal \<^verbatim>\<open>`s0${v0}s1${v1}...sn`\<close> is its list of string segments and
  its list of placeholder values; \<open>weave\<close> is the text it denotes once the values
  are known.
\<close>

fun weave :: "string list \<Rightarrow> string list \<Rightarrow> string" where
  "weave [] vs = concat vs"
| "weave (s # ss) [] = concat (s # ss)"
| "weave (s # ss) (v # vs) = s @ v @ weave ss vs"

text \<open>
  Modelled from the spec: \<^verbatim>\<open>interpolate\<close> of the deployment library is not part of
  the sources. Section 4.1: the eventual value is the template with each placeholder
  substituted by the resolved part; the dependency set is the union of all parts'
  dependency sets.
\<close>

definition interpolate :: "string list \<Rightarrow> string Output list \<Rightarrow> string Output" where
  "interpolate segments parts =
     \<lparr>resolved = weave segments (map resolved parts),
      deps = \<Union> (set (map deps parts))\<rparr>"

text \<open>
  Modelled from the spec: property access on a deferred struct (\<^verbatim>\<open>iot.name\<close>) is
  done by the deployment library, which is not part of the sources. Section 4.1: the
  projection is applied to the eventual value; the field may itself be deferred, and
  no dependency of the struct or of the field is dropped.
\<close>

definition project :: "'a Output \<Rightarrow> ('a \<Rightarrow> 'b input) \<Rightarrow> 'b Output" where
  "project d f =
     (let r = output (f (resolved d))
      in \<lparr>resolved = resolved r, deps = deps d \<union> deps r\<rparr>)"

section \<open>Draft arguments\<close>

text \<open>
  The draft arguments of a resource are a loosely typed object: a field holds a plain
  string or boolean, a deferred string, an array, or a nested object. An object is an
  association list read with \<open>map_of\<close>.
\<close>

datatype arg =
    Str string
  | Bool bool
  | Dv "string Output"
  | Arr "arg list"
  | Obj "(string \<times> arg) list"

type_synonym struct = "(string \<times> arg) list"

text \<open>
  Modelled from the spec: how the dependencies of a draft are collected is decided by the
  resource constructors, which are not part of the sources. Section 4.3: the implicit
  dependencies are those of the deferred values in the fields of the draft, at any
  depth.
\<close>

fun argDeps :: "arg \<Rightarrow> string set" where
  "argDeps (Str s) = {}"
| "argDeps (Bool b) = {}"
| "argDeps (Dv d) = deps d"
| "argDeps (Arr vs) = \<Union> (set (map argDeps vs))"
| "argDeps (Obj fs) = \<Union> (set (map (\<lambda>kv. argDeps (snd kv)) fs))"

definition structDeps :: "struct \<Rightarrow> string set" where
  "structDeps fs = argDeps (Obj fs)"

text \<open>Every deferred value a draft refers to, in the order of its fields.\<close>

fun deferredIn :: "arg \<Rightarrow> string Output list" where
  "deferredIn (Str s) = []"
| "deferredIn (Bool b) = []"
| "deferredIn (Dv d) = [d]"
| "deferredIn (Arr vs) = concat (map deferredIn vs)"
| "deferredIn (Obj fs) = concat (map (\<lambda>kv. deferredIn (snd kv)) fs)"

text \<open>Object spread \<^verbatim>\<open>{ ...a, ...b }\<close>: the fields of \<open>b\<close> win.\<close>

definition spread :: "struct \<Rightarrow> struct \<Rightarrow> struct" where
  "spread a b = foldl (\<lambda>acc kv. AList.update (fst kv) (snd kv) acc) a b"

section \<open>Resource nodes and the provisioning engine boundary\<close>

text \<open>
  Modelled from the spec: the record the engine keeps of a declared resource is not part
  of the sources. Section 3, ResourceNode: identity, owning parent, draft arguments and
  the set of identities it depends on. The registry lists the declared nodes in the
  order of their declaration.
\<close>

record node =
  identity :: string
  parent :: string
  draftArgs :: struct
  dependsOn :: "string set"

type_synonym registry = "node list"

text \<open>
  Modelled from the spec: the failures of section 7. A validation failure names the
  missing or invalid field and is raised at declaration time; a resolution failure
  names the upstream resource that failed and is carried by a deferred value.
\<close>

datatype error = ValidationError string | ResolutionFailure string

text \<open>
  Modelled from the spec: the classes of the resources (\<^verbatim>\<open>Function\<close>,
  \<^verbatim>\<open>aws.iot.TopicRule\<close>, \<^verbatim>\<open>aws.lambda.Permission\<close>) are not part of the sources.
  Section 6: a constructor returns a handle whose fields are deferred values; the
  source reads \<^verbatim>\<open>arn\<close> and \<^verbatim>\<open>name\<close>. The source holds the function as
  \<^verbatim>\<open>Output<Function>\<close>, so the handle is deferred as a whole: \<open>res_failure\<close> is
  the failure it settles into, if any (the failed state of section 9).
\<close>

record resource =
  res_id :: string
  res_arn :: "string Output"
  res_name :: "string Output"
  res_failure :: "error option"

text \<open>
  Modelled from the spec: the provisioning engine is external (section 1). What the
  outputs of a provisioned resource eventually resolve to is its decision; it is a
  parameter of the model.
\<close>

record engine =
  arnOf :: "string \<Rightarrow> string"
  nameOf :: "string \<Rightarrow> string"

text \<open>
  Modelled from the spec: the handle of the resource with a given identity. Section 6:
  its fields are deferred values; each depends on the resource itself. A declared
  resource has not failed.
\<close>

definition handleOf :: "engine \<Rightarrow> string \<Rightarrow> resource" where
  "handleOf eng ident =
     \<lparr>res_id = ident,
      res_arn = \<lparr>resolved = arnOf eng ident, deps = {ident}\<rparr>,
      res_name = \<lparr>resolved = nameOf eng ident, deps = {ident}\<rparr>,
      res_failure = None\<rparr>"

text \<open>
  Modelled from the spec: the low-level resource constructors
  (\<^verbatim>\<open>new aws.iot.TopicRule\<close>, \<^verbatim>\<open>new aws.lambda.Permission\<close>) are not part of the
  sources. Section 4.3, \<^verbatim>\<open>declare(identity, draftArgs, explicitDeps)\<close>: the node is
  recorded with its full dependency set, the implicit dependencies of the deferred
  values in the draft together with the explicit ones, and a handle is returned.
  Declaring appends one node and changes no other.
\<close>

definition declareNode ::
  "engine \<Rightarrow> string \<Rightarrow> struct \<Rightarrow> string set \<Rightarrow> string \<Rightarrow> registry \<Rightarrow> resource \<times> registry" where
  "declareNode eng ident draft explicitDeps par reg =
     (handleOf eng ident,
      reg @ [\<lparr>identity = ident, parent = par, draftArgs = draft,
              dependsOn = structDeps draft \<union> explicitDeps\<rparr>])"

section \<open>Transform hooks\<close>

type_synonym hook = "struct \<Rightarrow> struct"

text \<open>
  Modelled from the spec: the re-merge of section 4.2, part of \<^verbatim>\<open>transform\<close>, which
  is not part of the sources. Each owned field of the candidate is set to what the
  defaults hold for it (and removed when the defaults do not have it); every other
  field stays as the candidate has it.
\<close>

definition reassert :: "string list \<Rightarrow> struct \<Rightarrow> struct \<Rightarrow> struct" where
  "reassert owned defaults candidate =
     foldr (\<lambda>k c. case map_of defaults k of
                     Some v \<Rightarrow> AList.update k v c
                   | None \<Rightarrow> AList.delete k c) owned candidate"

text \<open>
  Modelled from the spec: \<^verbatim>\<open>transform\<close> is imported from \<^verbatim>\<open>../component\<close>, which
  is not part of the sources. Section 4.2, \<^verbatim>\<open>applyTransform(hook, defaults)\<close>: if the
  hook is absent, the defaults are returned unchanged; otherwise the candidate is
  \<^verbatim>\<open>hook(defaults)\<close> and every field the composite marks as owned is taken from the
  defaults, all other fields from the candidate. The fields a composite marks as owned
  are the first argument; a composite that marks none has the empty list there.
\<close>

definition transform :: "string list \<Rightarrow> hook option \<Rightarrow> struct \<Rightarrow> struct" where
  "transform owned h defaults =
     (case h of
        None \<Rightarrow> defaults
      | Some f \<Rightarrow> (let candidate = f defaults in reassert owned defaults candidate))"

section \<open>The subscriber component\<close>

datatype functionDefinition = Handler string | FunctionArgs struct

record iotArgs =
  iot_name :: "string input"

record transformArgs =
  topicRule :: "hook option"

text \<open>
  \<^verbatim>\<open>Args\<close>: \<^verbatim>\<open>iot\<close> and \<^verbatim>\<open>subscriber\<close> are declared here, \<^verbatim>\<open>filter\<close> and
  \<^verbatim>\<open>transform\<close> are inherited and read with \<^verbatim>\<open>??\<close> and \<^verbatim>\<open>?.\<close>, so they may be
  undefined. A caller may leave \<^verbatim>\<open>subscriber\<close> out at run time as well.
\<close>

record args =
  iot :: "iotArgs input"
  subscriber :: "functionDefinition input option"
  filter_arg :: "string input option"
  transform_arg :: "transformArgs option"

text \<open>
  Modelled from the spec: \<^verbatim>\<open>Function.fromDefinition\<close> is imported from
  \<^verbatim>\<open>./function\<close>, which is not part of the sources. Section 6: one handler node is
  declared under the given parent, from the definition with the override spread over
  it, and its handle is returned.

  What the source shows of the call: it is handed the identity and the definition, not
  the name of the field the definition came from; its result is held as
  \<^verbatim>\<open>Output<Function>\<close>; the constructor checks the definition neither before nor
  after it. A missing definition is therefore not an exception of the call: no handler
  node is declared, and the deferred handle that is returned settles into a failure
  that names the handler (section 7, resolution failure).
\<close>

definition fromDefinition ::
  "engine \<Rightarrow> string \<Rightarrow> functionDefinition input option \<Rightarrow> struct \<Rightarrow> hook option \<Rightarrow> string
     \<Rightarrow> registry \<Rightarrow> (error + resource) \<times> registry" where
  "fromDefinition eng ident definition override argsTransform par reg =
     (case definition of
        None \<Rightarrow>
          (Inr ((handleOf eng ident)\<lparr>res_failure := Some (ResolutionFailure ident)\<rparr>), reg)
      | Some i \<Rightarrow>
          (let d = output i;
               base = (case resolved d of
                         Handler h \<Rightarrow> [(''handler'', Str h)]
                       | FunctionArgs fa \<Rightarrow> fa);
               draft = transform [] argsTransform (spread base override);
               (fn, reg') = declareNode eng ident draft (deps d) par reg
           in (Inr fn, reg')))"

text \<open>The apostrophe of the SQL statement.\<close>

definition apostrophe :: string where
  "apostrophe = [CHR 0x27]"

definition normalizeFilter :: "args \<Rightarrow> string Output" where
  "normalizeFilter a = output (case filter_arg a of None \<Rightarrow> Plain ''#'' | Some f \<Rightarrow> f)"

definition createFunction ::
  "engine \<Rightarrow> string \<Rightarrow> args \<Rightarrow> iotArgs Output \<Rightarrow> string Output \<Rightarrow> registry
     \<Rightarrow> (error + resource) \<times> registry" where
  "createFunction eng nm a iot' flt reg =
     fromDefinition eng (nm @ ''Handler'') (subscriber a)
       [(''description'',
         Dv (interpolate [''Subscribed to '', '' on '', ''''] [project iot' iot_name, flt]))]
       None nm reg"

text \<open>The object literal that \<^verbatim>\<open>createRule\<close> hands to \<^verbatim>\<open>transform\<close>.\<close>

definition topicRuleDefaults :: "string Output \<Rightarrow> resource \<Rightarrow> struct" where
  "topicRuleDefaults flt fn =
     [(''sqlVersion'', Str ''2016-03-23''),
      (''sql'', Dv (interpolate [''SELECT * FROM '' @ apostrophe, apostrophe] [flt])),
      (''enabled'', Bool True),
      (''lambdas'', Arr [Obj [(''functionArn'', Dv (res_arn fn))]])]"

text \<open>
  \<^verbatim>\<open>createRule\<close> hands \<^verbatim>\<open>transform\<close> the hook and the defaults and nothing else:
  the composite marks no field of the topic rule as owned.
\<close>

definition createRule ::
  "engine \<Rightarrow> string \<Rightarrow> args \<Rightarrow> string Output \<Rightarrow> resource \<Rightarrow> registry \<Rightarrow> resource \<times> registry" where
  "createRule eng nm a flt fn reg =
     declareNode eng (nm @ ''Rule'')
       (transform []
          (case transform_arg a of None \<Rightarrow> None | Some t \<Rightarrow> topicRule t)
          (topicRuleDefaults flt fn))
       {} nm reg"

definition createPermission ::
  "engine \<Rightarrow> string \<Rightarrow> resource \<Rightarrow> resource \<Rightarrow> registry \<Rightarrow> resource \<times> registry" where
  "createPermission eng nm fn rule reg =
     declareNode eng (nm @ ''Permission'')
       [(''action'', Str ''lambda:InvokeFunction''),
        (''function'', Dv (res_name fn)),
        (''principal'', Str ''iot.amazonaws.com''),
        (''sourceArn'', Dv (res_arn rule))]
       {} nm reg"

text \<open>The private fields of the class.\<close>

record realtimeLambdaSubscriber =
  fn :: resource
  permission :: resource
  rule :: resource

text \<open>
  The constructor. The children are declared in the order the source calls the three
  local functions, each with \<^verbatim>\<open>{ parent: self }\<close>; the composite is identified by
  its name. An exception of \<^verbatim>\<open>createFunction\<close> would leave the constructor at
  once, with the registry as it is at that moment. The call of the base-class constructor
  registers the composite itself and declares no child; it is left out.
\<close>

definition construct ::
  "engine \<Rightarrow> string \<Rightarrow> args \<Rightarrow> registry \<Rightarrow> (error + realtimeLambdaSubscriber) \<times> registry" where
  "construct eng nm a reg =
     (let iot' = output (iot a);
          flt = normalizeFilter a
      in case createFunction eng nm a iot' flt reg of
           (Inl e, reg1) \<Rightarrow> (Inl e, reg1)
         | (Inr f, reg1) \<Rightarrow>
             (let (r, reg2) = createRule eng nm a flt f reg1;
                  (p, reg3) = createPermission eng nm f r reg2
              in (Inr \<lparr>fn = f, permission = p, rule = r\<rparr>, reg3)))"

text \<open>The getter \<^verbatim>\<open>nodes\<close>.\<close>

definition nodes :: "realtimeLambdaSubscriber \<Rightarrow> (string \<times> resource) list" where
  "nodes self =
     [(''function'', fn self), (''permission'', permission self), (''rule'', rule self)]"

section \<open>Concrete inputs\<close>

text \<open>
  An engine, and two argument sets: the end-to-end scenario of the specification, and
  one whose hook replaces the whole draft of the topic rule.
\<close>

definition exampleEngine :: engine where
  "exampleEngine = \<lparr>arnOf = (\<lambda>x. ''arn:'' @ x), nameOf = (\<lambda>x. x)\<rparr>"

definition exampleArgs :: args where
  "exampleArgs =
     \<lparr>iot = Plain \<lparr>iot_name = Plain ''rt''\<rparr>,
      subscriber = Some (Plain (Handler ''handler.entry'')),
      filter_arg = None,
      transform_arg = None\<rparr>"

definition hookedArgs :: args where
  "hookedArgs =
     \<lparr>iot = Plain \<lparr>iot_name = Plain ''rt''\<rparr>,
      subscriber = Some (Plain (FunctionArgs [(''handler'', Str ''other.entry'')])),
      filter_arg = Some (Plain ''devices/+/status''),
      transform_arg = Some \<lparr>topicRule = Some (\<lambda>d. [(''sql'', Str ''SELECT 1'')])\<rparr>\<rparr>"

section \<open>Auxiliary facts\<close>

lemma map_of_reassert:
  "map_of (reassert owned d c) k = (if k \<in> set owned then map_of d k else map_of c k)"
  by (induction owned)
     (auto simp: reassert_def AList.update_conv' AList.delete_conv' split: option.splits)

lemma reassert_same: "reassert owned d d = d"
proof (induction owned)
  case Nil
  then show ?case by (simp add: reassert_def)
next
  case (Cons k ks)
  have step: "reassert (k # ks) d d =
      (case map_of d k of Some v \<Rightarrow> AList.update k v (reassert ks d d)
                        | None \<Rightarrow> AList.delete k (reassert ks d d))"
    by (simp add: reassert_def split: option.splits)
  show ?case
  proof (cases "map_of d k")
    case None
    then have "k \<notin> fst ` set d" by (simp add: map_of_eq_None_iff)
    with None step Cons show ?thesis by simp
  next
    case (Some v)
    with step Cons show ?thesis by (simp add: AList.update_triv)
  qed
qed

lemma transform_Nil: "transform [] h d = (case h of None \<Rightarrow> d | Some f \<Rightarrow> f d)"
  by (simp add: transform_def reassert_def split: option.splits)

lemma transform_identity: "transform owned (Some (\<lambda>d. d)) d = d"
  by (simp add: transform_def reassert_same)

lemma argDeps_deferredIn: "argDeps v = \<Union> (set (map deps (deferredIn v)))"
  by (induction v rule: argDeps.induct) auto

lemma createFunction_Some:
  assumes "subscriber a = Some i"
  shows "createFunction eng nm a iot' flt reg =
    (Inr (handleOf eng (nm @ ''Handler'')),
     reg @ [\<lparr>identity = nm @ ''Handler'', parent = nm,
             draftArgs =
               spread (case resolved (output i) of
                         Handler h \<Rightarrow> [(''handler'', Str h)]
                       | FunctionArgs fa \<Rightarrow> fa)
                 [(''description'',
                   Dv (interpolate [''Subscribed to '', '' on '', '''']
                         [project iot' iot_name, flt]))],
             dependsOn =
               structDeps
                 (spread (case resolved (output i) of
                            Handler h \<Rightarrow> [(''handler'', Str h)]
                          | FunctionArgs fa \<Rightarrow> fa)
                    [(''description'',
                      Dv (interpolate [''Subscribed to '', '' on '', '''']
                            [project iot' iot_name, flt]))])
               \<union> deps (output i)\<rparr>])"
  using assms
  by (simp add: createFunction_def fromDefinition_def Let_def declareNode_def transform_def)

lemma createRule_eq:
  "createRule eng nm a flt f reg =
    (handleOf eng (nm @ ''Rule''),
     reg @ [\<lparr>identity = nm @ ''Rule'', parent = nm,
             draftArgs = transform []
                (case transform_arg a of None \<Rightarrow> None | Some t \<Rightarrow> topicRule t)
                (topicRuleDefaults flt f),
             dependsOn = structDeps (transform []
                (case transform_arg a of None \<Rightarrow> None | Some t \<Rightarrow> topicRule t)
                (topicRuleDefaults flt f))\<rparr>])"
  by (simp add: createRule_def declareNode_def)

lemma createPermission_eq:
  "createPermission eng nm f r reg =
    (handleOf eng (nm @ ''Permission''),
     reg @ [\<lparr>identity = nm @ ''Permission'', parent = nm,
             draftArgs = [(''action'', Str ''lambda:InvokeFunction''),
                          (''function'', Dv (res_name f)),
                          (''principal'', Str ''iot.amazonaws.com''),
                          (''sourceArn'', Dv (res_arn r))],
             dependsOn = deps (res_name f) \<union> deps (res_arn r)\<rparr>])"
  by (simp add: createPermission_def declareNode_def structDeps_def)

lemma construct_Some:
  assumes "subscriber a = Some i"
  shows "construct eng nm a reg =
    (Inr \<lparr>fn = handleOf eng (nm @ ''Handler''),
          permission = handleOf eng (nm @ ''Permission''),
          rule = handleOf eng (nm @ ''Rule'')\<rparr>,
     snd (createPermission eng nm (handleOf eng (nm @ ''Handler'')) (handleOf eng (nm @ ''Rule''))
       (snd (createRule eng nm a (normalizeFilter a) (handleOf eng (nm @ ''Handler''))
          (snd (createFunction eng nm a (output (iot a)) (normalizeFilter a) reg))))))"
  unfolding construct_def Let_def
  by (simp add: createFunction_Some [OF assms] createRule_eq createPermission_eq)

lemma createFunction_node:
  assumes "subscriber a = Some i"
  shows "identity (last (snd (createFunction eng nm a iot' flt reg))) = nm @ ''Handler''"
    and "parent (last (snd (createFunction eng nm a iot' flt reg))) = nm"
    and "fst (createFunction eng nm a iot' flt reg) = Inr (handleOf eng (nm @ ''Handler''))"
  by (simp_all add: createFunction_Some [OF assms])

lemma construct_children:
  assumes "subscriber a = Some i"
  shows "construct eng nm a reg =
    (Inr \<lparr>fn = handleOf eng (nm @ ''Handler''),
          permission = handleOf eng (nm @ ''Permission''),
          rule = handleOf eng (nm @ ''Rule'')\<rparr>,
     reg @ [last (snd (createFunction eng nm a (output (iot a)) (normalizeFilter a) reg)),
            \<lparr>identity = nm @ ''Rule'', parent = nm,
             draftArgs = transform []
                (case transform_arg a of None \<Rightarrow> None | Some t \<Rightarrow> topicRule t)
                (topicRuleDefaults (normalizeFilter a) (handleOf eng (nm @ ''Handler''))),
             dependsOn = structDeps (transform []
                (case transform_arg a of None \<Rightarrow> None | Some t \<Rightarrow> topicRule t)
                (topicRuleDefaults (normalizeFilter a) (handleOf eng (nm @ ''Handler''))))\<rparr>,
            \<lparr>identity = nm @ ''Permission'', parent = nm,
             draftArgs = [(''action'', Str ''lambda:InvokeFunction''),
                          (''function'', Dv (res_name (handleOf eng (nm @ ''Handler'')))),
                          (''principal'', Str ''iot.amazonaws.com''),
                          (''sourceArn'', Dv (res_arn (handleOf eng (nm @ ''Rule''))))],
             dependsOn = deps (res_name (handleOf eng (nm @ ''Handler'')))
                \<union> deps (res_arn (handleOf eng (nm @ ''Rule'')))\<rparr>])"
  by (simp add: construct_Some [OF assms] createFunction_Some [OF assms]
        createRule_eq createPermission_eq)



section \<open>The claims\<close>

text \<open>
  C1. As stated, the claim fails: the composite marks no field of the topic rule as
  owned, so nothing is re-asserted after the hook has run. The hook of \<open>hookedArgs\<close>
  returns a struct with its own SQL statement and no lambdas entry, and this struct is
  the draft of the declared rule; the composite's defaults hold other values in both
  fields.
\<close>

theorem topicRule_hook_overrides_wiring:
  "identity (snd (construct exampleEngine ''Sub'' hookedArgs []) ! 1) = ''SubRule''
   \<and> map_of (draftArgs (snd (construct exampleEngine ''Sub'' hookedArgs []) ! 1)) ''sql''
       = Some (Str ''SELECT 1'')
   \<and> map_of (draftArgs (snd (construct exampleEngine ''Sub'' hookedArgs []) ! 1)) ''lambdas''
       = None
   \<and> map_of (draftArgs (snd (construct exampleEngine ''Sub'' hookedArgs []) ! 1)) ''sql''
       \<noteq> map_of (topicRuleDefaults (normalizeFilter hookedArgs)
                   (handleOf exampleEngine ''SubHandler'')) ''sql''
   \<and> map_of (draftArgs (snd (construct exampleEngine ''Sub'' hookedArgs []) ! 1)) ''lambdas''
       \<noteq> map_of (topicRuleDefaults (normalizeFilter hookedArgs)
                   (handleOf exampleEngine ''SubHandler'')) ''lambdas''
   \<and> map_of (topicRuleDefaults (normalizeFilter hookedArgs)
               (handleOf exampleEngine ''SubHandler'')) ''sql''
       = Some (Dv \<lparr>resolved = ''SELECT * FROM '' @ apostrophe @ ''devices/+/status''
                                 @ apostrophe,
                    deps = {}\<rparr>)
   \<and> map_of (topicRuleDefaults (normalizeFilter hookedArgs)
               (handleOf exampleEngine ''SubHandler'')) ''lambdas''
       = Some (Arr [Obj [(''functionArn'',
                          Dv \<lparr>resolved = ''arn:SubHandler'', deps = {''SubHandler''}\<rparr>)]])"
proof -
  have s: "subscriber hookedArgs = Some (Plain (FunctionArgs [(''handler'', Str ''other.entry'')]))"
    by (simp add: hookedArgs_def)
  have t: "(case transform_arg hookedArgs of None \<Rightarrow> None | Some t \<Rightarrow> topicRule t)
      = Some (\<lambda>d. [(''sql'', Str ''SELECT 1'')])"
    by (simp add: hookedArgs_def)
  have n: "normalizeFilter hookedArgs = \<lparr>resolved = ''devices/+/status'', deps = {}\<rparr>"
    by (simp add: normalizeFilter_def hookedArgs_def)
  show ?thesis
    unfolding construct_children [OF s] t transform_Nil n
    by (simp add: topicRuleDefaults_def interpolate_def handleOf_def exampleEngine_def)
qed

text \<open>
  C1, amended. The draft handed to the topic-rule constructor is what \<^verbatim>\<open>transform\<close>
  returns for the hook and the composite's defaults, and \<^verbatim>\<open>transform\<close> takes from
  the defaults exactly the fields of its owned list; \<^verbatim>\<open>createRule\<close> has no owned
  field, so with a hook the draft is the struct the hook returns for the defaults, and
  without a hook it is the defaults, whose SQL statement is built from the filter and
  whose lambdas entry is built from the function's ARN.
\<close>

theorem topicRule_draft_is_hook_output:
  "map_of (transform owned (Some h) d) k
     = (if k \<in> set owned then map_of d k else map_of (h d) k)
   \<and> snd (createRule eng nm (a\<lparr>transform_arg := Some \<lparr>topicRule = Some h\<rparr>\<rparr>) flt f reg)
     = reg @ [\<lparr>identity = nm @ ''Rule'', parent = nm,
               draftArgs = h (topicRuleDefaults flt f),
               dependsOn = structDeps (h (topicRuleDefaults flt f))\<rparr>]
   \<and> snd (createRule eng nm (a\<lparr>transform_arg := None\<rparr>) flt f reg)
     = reg @ [\<lparr>identity = nm @ ''Rule'', parent = nm,
               draftArgs = topicRuleDefaults flt f,
               dependsOn = structDeps (topicRuleDefaults flt f)\<rparr>]
   \<and> snd (createRule eng nm (a\<lparr>transform_arg := Some \<lparr>topicRule = None\<rparr>\<rparr>) flt f reg)
     = reg @ [\<lparr>identity = nm @ ''Rule'', parent = nm,
               draftArgs = topicRuleDefaults flt f,
               dependsOn = structDeps (topicRuleDefaults flt f)\<rparr>]
   \<and> map_of (topicRuleDefaults flt f) ''sql''
     = Some (Dv (interpolate [''SELECT * FROM '' @ apostrophe, apostrophe] [flt]))
   \<and> map_of (topicRuleDefaults flt f) ''lambdas''
     = Some (Arr [Obj [(''functionArn'', Dv (res_arn f))]])"
proof -
  have "map_of (transform owned (Some h) d) k
     = (if k \<in> set owned then map_of d k else map_of (h d) k)"
    by (simp add: transform_def map_of_reassert)
  moreover
  have "snd (createRule eng nm (a\<lparr>transform_arg := Some \<lparr>topicRule = Some h\<rparr>\<rparr>) flt f reg)
     = reg @ [\<lparr>identity = nm @ ''Rule'', parent = nm,
               draftArgs = h (topicRuleDefaults flt f),
               dependsOn = structDeps (h (topicRuleDefaults flt f))\<rparr>]"
    by (simp add: createRule_eq transform_Nil)
  moreover
  have "snd (createRule eng nm (a\<lparr>transform_arg := None\<rparr>) flt f reg)
     = reg @ [\<lparr>identity = nm @ ''Rule'', parent = nm,
               draftArgs = topicRuleDefaults flt f,
               dependsOn = structDeps (topicRuleDefaults flt f)\<rparr>]"
    by (simp add: createRule_eq transform_Nil)
  moreover
  have "snd (createRule eng nm (a\<lparr>transform_arg := Some \<lparr>topicRule = None\<rparr>\<rparr>) flt f reg)
     = reg @ [\<lparr>identity = nm @ ''Rule'', parent = nm,
               draftArgs = topicRuleDefaults flt f,
               dependsOn = structDeps (topicRuleDefaults flt f)\<rparr>]"
    by (simp add: createRule_eq transform_Nil)
  moreover
  have "map_of (topicRuleDefaults flt f) ''sql''
     = Some (Dv (interpolate [''SELECT * FROM '' @ apostrophe, apostrophe] [flt]))"
    by (simp add: topicRuleDefaults_def)
  moreover
  have "map_of (topicRuleDefaults flt f) ''lambdas''
     = Some (Arr [Obj [(''functionArn'', Dv (res_arn f))]])"
    by (simp add: topicRuleDefaults_def)
  ultimately show ?thesis by blast
qed

text \<open>
  C2. With a subscriber definition and no transform, the constructor declares exactly
  three children, the handler, the rule and the permission, in this order. The
  \<^verbatim>\<open>lambdas\<close> entry of the rule's draft is the ARN output of the handler, so the
  rule depends on the handler; the \<^verbatim>\<open>sourceArn\<close> of the permission's draft is the
  ARN output of the rule, so the permission depends on the rule.
\<close>

theorem construct_three_children_chain:
  assumes "subscriber a = Some i"
    and "transform_arg a = None \<or> transform_arg a = Some \<lparr>topicRule = None\<rparr>"
  shows "\<exists>c h r p. construct eng nm a reg = (Inr c, reg @ [h, r, p])
     \<and> identity h = nm @ ''Handler'' \<and> identity r = nm @ ''Rule''
     \<and> identity p = nm @ ''Permission''
     \<and> res_id (fn c) = identity h \<and> res_id (rule c) = identity r
     \<and> res_id (permission c) = identity p
     \<and> map_of (draftArgs r) ''lambdas'' = Some (Arr [Obj [(''functionArn'', Dv (res_arn (fn c)))]])
     \<and> deps (res_arn (fn c)) = {identity h}
     \<and> identity h \<in> dependsOn r
     \<and> map_of (draftArgs p) ''sourceArn'' = Some (Dv (res_arn (rule c)))
     \<and> deps (res_arn (rule c)) = {identity r}
     \<and> identity r \<in> dependsOn p"
proof -
  from assms(2)
  have nohook: "(case transform_arg a of None \<Rightarrow> None | Some t \<Rightarrow> topicRule t) = None"
    by auto
  show ?thesis
    unfolding construct_children [OF assms(1)] nohook
    by (intro exI conjI, rule refl)
       (simp_all add: createFunction_node [OF assms(1)] handleOf_def transform_def
          topicRuleDefaults_def structDeps_def)
qed

theorem construct_three_children_chain_witness:
  "subscriber exampleArgs = Some (Plain (Handler ''handler.entry''))
   \<and> transform_arg exampleArgs = None
   \<and> (\<exists>c h r p. construct exampleEngine ''Sub'' exampleArgs [] = (Inr c, [h, r, p])
        \<and> identity h = ''SubHandler'' \<and> identity r = ''SubRule''
        \<and> identity p = ''SubPermission''
        \<and> res_id (fn c) = identity h \<and> res_id (rule c) = identity r
        \<and> res_id (permission c) = identity p
        \<and> map_of (draftArgs r) ''lambdas''
             = Some (Arr [Obj [(''functionArn'', Dv (res_arn (fn c)))]])
        \<and> deps (res_arn (fn c)) = {identity h}
        \<and> identity h \<in> dependsOn r
        \<and> map_of (draftArgs p) ''sourceArn'' = Some (Dv (res_arn (rule c)))
        \<and> deps (res_arn (rule c)) = {identity r}
        \<and> identity r \<in> dependsOn p)"
proof -
  have s: "subscriber exampleArgs = Some (Plain (Handler ''handler.entry''))"
    by (simp add: exampleArgs_def)
  have t: "transform_arg exampleArgs = None"
    by (simp add: exampleArgs_def)
  from t have t': "transform_arg exampleArgs = None
      \<or> transform_arg exampleArgs = Some \<lparr>topicRule = None\<rparr>"
    by simp
  show ?thesis
    using s t construct_three_children_chain [OF s t', of exampleEngine "''Sub''" "[]"]
    by simp
qed

text \<open>
  C3. As stated, for every input, the claim fails: a hook for the topic rule is part of
  the input and decides the draft. With the hook of \<open>hookedArgs\<close> the SQL statement of
  the declared rule is the hook's, with the filter \<^verbatim>\<open>devices/+/status\<close> as well as
  with no filter.
\<close>

theorem filter_pattern_lost_under_hook:
  "filter_arg hookedArgs = Some (Plain ''devices/+/status'')
   \<and> map_of (draftArgs (snd (construct exampleEngine ''Sub'' hookedArgs []) ! 1)) ''sql''
       = Some (Str ''SELECT 1'')
   \<and> filter_arg (hookedArgs\<lparr>filter_arg := None\<rparr>) = None
   \<and> identity (snd (construct exampleEngine ''Sub'' (hookedArgs\<lparr>filter_arg := None\<rparr>) []) ! 1)
       = ''SubRule''
   \<and> map_of (draftArgs (snd (construct exampleEngine ''Sub''
                                 (hookedArgs\<lparr>filter_arg := None\<rparr>) []) ! 1)) ''sql''
       = Some (Str ''SELECT 1'')"
proof -
  have s: "subscriber (hookedArgs\<lparr>filter_arg := x\<rparr>)
      = Some (Plain (FunctionArgs [(''handler'', Str ''other.entry'')]))" for x
    by (simp add: hookedArgs_def)
  have t: "(case transform_arg (hookedArgs\<lparr>filter_arg := x\<rparr>) of
              None \<Rightarrow> None | Some t \<Rightarrow> topicRule t)
      = Some (\<lambda>d. [(''sql'', Str ''SELECT 1'')])" for x
    by (simp add: hookedArgs_def)
  have h: "hookedArgs\<lparr>filter_arg := Some (Plain ''devices/+/status'')\<rparr> = hookedArgs"
    by (simp add: hookedArgs_def)
  have 1: "map_of (draftArgs (snd (construct exampleEngine ''Sub''
                                 (hookedArgs\<lparr>filter_arg := x\<rparr>) []) ! 1)) ''sql''
       = Some (Str ''SELECT 1'')" for x
    unfolding construct_children [OF s] t transform_Nil by simp
  have 2: "identity (snd (construct exampleEngine ''Sub''
                            (hookedArgs\<lparr>filter_arg := x\<rparr>) []) ! 1) = ''SubRule''" for x
    unfolding construct_children [OF s] by simp
  from 1 [of "Some (Plain ''devices/+/status'')"] 1 [of None] 2 [of None]
  show ?thesis
    unfolding h by (simp add: hookedArgs_def)
qed

text \<open>
  C3, amended. For every input with a subscriber definition and no hook for the topic
  rule: without a filter the normalized filter is the lifted plain value \<^verbatim>\<open>"#"\<close>, and
  the SQL statement of the rule's draft resolves to a selection from \<^verbatim>\<open>'#'\<close>; with
  a filter string it is that string lifted, and the statement selects from exactly that
  string. A filter that is already deferred is passed through. The normalized filter
  is what is said here whether or not there is a hook.
\<close>

theorem filter_default_and_passthrough:
  assumes "subscriber a = Some i"
    and "transform_arg a = None \<or> transform_arg a = Some \<lparr>topicRule = None\<rparr>"
  shows "normalizeFilter (b\<lparr>filter_arg := None\<rparr>) = output (Plain ''#'')
   \<and> resolved (normalizeFilter (b\<lparr>filter_arg := None\<rparr>)) = ''#''
   \<and> normalizeFilter (b\<lparr>filter_arg := Some (Plain s)\<rparr>) = output (Plain s)
   \<and> resolved (normalizeFilter (b\<lparr>filter_arg := Some (Plain s)\<rparr>)) = s
   \<and> normalizeFilter (b\<lparr>filter_arg := Some (Out d)\<rparr>) = d
   \<and> (\<exists>c h r p sql.
         construct eng nm (a\<lparr>filter_arg := None\<rparr>) reg = (Inr c, reg @ [h, r, p])
         \<and> map_of (draftArgs r) ''sql'' = Some (Dv sql)
         \<and> resolved sql = ''SELECT * FROM '' @ apostrophe @ ''#'' @ apostrophe)
   \<and> (\<exists>c h r p sql.
         construct eng nm (a\<lparr>filter_arg := Some (Plain s)\<rparr>) reg = (Inr c, reg @ [h, r, p])
         \<and> map_of (draftArgs r) ''sql'' = Some (Dv sql)
         \<and> resolved sql = ''SELECT * FROM '' @ apostrophe @ s @ apostrophe)"
proof -
  have n1: "normalizeFilter (x\<lparr>filter_arg := None\<rparr>) = output (Plain ''#'')" for x
    by (simp add: normalizeFilter_def)
  have n2: "normalizeFilter (x\<lparr>filter_arg := Some j\<rparr>) = output j" for x j
    by (simp add: normalizeFilter_def)
  have c: "subscriber (a\<lparr>filter_arg := x\<rparr>) = Some i" for x
    using assms(1) by simp
  have t: "(case transform_arg (a\<lparr>filter_arg := x\<rparr>) of None \<Rightarrow> None | Some t \<Rightarrow> topicRule t)
      = None" for x
    using assms(2) by auto
  have sql: "map_of (topicRuleDefaults flt f) ''sql''
      = Some (Dv (interpolate [''SELECT * FROM '' @ apostrophe, apostrophe] [flt]))" for flt f
    by (simp add: topicRuleDefaults_def)
  have e1: "\<exists>c h r p sql.
         construct eng nm (a\<lparr>filter_arg := None\<rparr>) reg = (Inr c, reg @ [h, r, p])
         \<and> map_of (draftArgs r) ''sql'' = Some (Dv sql)
         \<and> resolved sql = ''SELECT * FROM '' @ apostrophe @ ''#'' @ apostrophe"
    unfolding construct_children [OF c] t transform_Nil
    by (intro exI conjI, rule refl, simp only: node.simps option.case, rule sql)
       (simp add: interpolate_def n1)
  have e2: "\<exists>c h r p sql.
         construct eng nm (a\<lparr>filter_arg := Some (Plain s)\<rparr>) reg = (Inr c, reg @ [h, r, p])
         \<and> map_of (draftArgs r) ''sql'' = Some (Dv sql)
         \<and> resolved sql = ''SELECT * FROM '' @ apostrophe @ s @ apostrophe"
    unfolding construct_children [OF c] t transform_Nil
    by (intro exI conjI, rule refl, simp only: node.simps option.case, rule sql)
       (simp add: interpolate_def n2)
  show ?thesis
    using e1 e2 by (simp add: n1 n2)
qed

theorem filter_default_and_passthrough_witness:
  "subscriber exampleArgs = Some (Plain (Handler ''handler.entry''))
   \<and> transform_arg exampleArgs = None
   \<and> resolved (normalizeFilter (exampleArgs\<lparr>filter_arg := None\<rparr>)) = ''#''
   \<and> resolved (normalizeFilter (exampleArgs\<lparr>filter_arg := Some (Plain ''devices/+/status'')\<rparr>))
       = ''devices/+/status''
   \<and> (\<exists>c h r p sql.
         construct exampleEngine ''Sub'' (exampleArgs\<lparr>filter_arg := None\<rparr>) []
           = (Inr c, [h, r, p])
         \<and> map_of (draftArgs r) ''sql'' = Some (Dv sql)
         \<and> resolved sql = ''SELECT * FROM '' @ apostrophe @ ''#'' @ apostrophe)
   \<and> (\<exists>c h r p sql.
         construct exampleEngine ''Sub''
             (exampleArgs\<lparr>filter_arg := Some (Plain ''devices/+/status'')\<rparr>) []
           = (Inr c, [h, r, p])
         \<and> map_of (draftArgs r) ''sql'' = Some (Dv sql)
         \<and> resolved sql = ''SELECT * FROM '' @ apostrophe @ ''devices/+/status'' @ apostrophe)"
proof -
  have s: "subscriber exampleArgs = Some (Plain (Handler ''handler.entry''))"
    by (simp add: exampleArgs_def)
  have t: "transform_arg exampleArgs = None"
    by (simp add: exampleArgs_def)
  from t have t': "transform_arg exampleArgs = None
      \<or> transform_arg exampleArgs = Some \<lparr>topicRule = None\<rparr>"
    by simp
  show ?thesis
    using s t filter_default_and_passthrough [OF s t', of exampleArgs "''devices/+/status''"
        "normalizeFilter exampleArgs" exampleEngine "''Sub''" "[]"]
    by simp
qed



text \<open>
  C5. The dependency set recorded for a declared node is exactly the union of the
  dependency sets of all deferred values its draft refers to, together with the
  explicit dependencies. Interpolation yields the union of the dependency sets of its
  parts, projection keeps those of the struct and of the field, and lifting keeps those
  of a deferred value. For the description of the handler, the rule and the permission
  this gives the sets of the values the source wires in.
\<close>

theorem dependency_sets_are_unions:
  "deps (interpolate segments parts) = \<Union> (set (map deps parts))
   \<and> deps (project d g) = deps d \<union> deps (output (g (resolved d)))
   \<and> deps (output (Out d)) = deps d
   \<and> dependsOn (last (snd (declareNode eng ident draft explicitDeps par reg)))
       = \<Union> (set (map deps (deferredIn (Obj draft)))) \<union> explicitDeps
   \<and> deps (interpolate [''Subscribed to '', '' on '', ''''] [project iot' iot_name, flt])
       = deps iot' \<union> deps (output (iot_name (resolved iot'))) \<union> deps flt
   \<and> dependsOn (last (snd (createRule eng nm (a\<lparr>transform_arg := None\<rparr>) flt f reg)))
       = deps flt \<union> deps (res_arn f)
   \<and> dependsOn (last (snd (createPermission eng nm f r reg)))
       = deps (res_name f) \<union> deps (res_arn r)"
proof -
  have "dependsOn (last (snd (declareNode eng ident draft explicitDeps par reg)))
       = \<Union> (set (map deps (deferredIn (Obj draft)))) \<union> explicitDeps"
    unfolding declareNode_def structDeps_def argDeps_deferredIn by simp
  moreover have "deps (project d g) = deps d \<union> deps (output (g (resolved d)))"
    by (simp add: project_def Let_def)
  moreover
  have "deps (interpolate [''Subscribed to '', '' on '', ''''] [project iot' iot_name, flt])
       = deps iot' \<union> deps (output (iot_name (resolved iot'))) \<union> deps flt"
    by (simp add: interpolate_def project_def Let_def)
  moreover
  have "dependsOn (last (snd (createRule eng nm (a\<lparr>transform_arg := None\<rparr>) flt f reg)))
       = deps flt \<union> deps (res_arn f)"
    by (simp add: createRule_eq transform_def topicRuleDefaults_def structDeps_def
          interpolate_def)
  moreover have "dependsOn (last (snd (createPermission eng nm f r reg)))
       = deps (res_name f) \<union> deps (res_arn r)"
    by (simp add: createPermission_eq)
  ultimately show ?thesis
    by (simp add: interpolate_def)
qed

text \<open>
  C6. For every instance, \<^verbatim>\<open>nodes\<close> has the keys \<^verbatim>\<open>function\<close>,
  \<^verbatim>\<open>permission\<close> and \<^verbatim>\<open>rule\<close> and no other; its values are the three stored
  handles, which for a constructed instance are the handles of the three declared
  children.
\<close>

theorem nodes_fixed_keys:
  "map fst (nodes self) = [''function'', ''permission'', ''rule'']
   \<and> map snd (nodes self) = [fn self, permission self, rule self]
   \<and> (\<exists>c h r p. construct eng nm (a\<lparr>subscriber := Some i\<rparr>) reg = (Inr c, reg @ [h, r, p])
        \<and> map fst (nodes c) = [''function'', ''permission'', ''rule'']
        \<and> map (\<lambda>kv. res_id (snd kv)) (nodes c) = [identity h, identity p, identity r])"
proof -
  have s: "subscriber (a\<lparr>subscriber := Some i\<rparr>) = Some i"
    by simp
  have "\<exists>c h r p. construct eng nm (a\<lparr>subscriber := Some i\<rparr>) reg = (Inr c, reg @ [h, r, p])
        \<and> map fst (nodes c) = [''function'', ''permission'', ''rule'']
        \<and> map (\<lambda>kv. res_id (snd kv)) (nodes c) = [identity h, identity p, identity r]"
    unfolding construct_children [OF s]
    by (intro exI conjI, rule refl)
       (simp_all add: nodes_def handleOf_def createFunction_node [OF s])
  then show ?thesis
    by (simp add: nodes_def)
qed

text \<open>
  C7. With the identity hook, \<^verbatim>\<open>transform\<close> returns what it returns with no hook;
  with no hook it returns the defaults unchanged. So \<^verbatim>\<open>createRule\<close> declares the
  same node in both cases.
\<close>

theorem transform_identity_hook:
  "transform owned (Some (\<lambda>d. d)) defaults = transform owned None defaults
   \<and> transform owned None defaults = defaults
   \<and> createRule eng nm (a\<lparr>transform_arg := Some \<lparr>topicRule = Some (\<lambda>d. d)\<rparr>\<rparr>) flt f reg
     = createRule eng nm (a\<lparr>transform_arg := None\<rparr>) flt f reg"
  by (simp add: transform_identity createRule_def) (simp add: transform_def)

text \<open>
  C8. The constructor calls each of the three creating functions once; each call
  appends exactly one node, whose parent is the composite, and leaves the nodes declared
  before it as they are. The three identities differ. The composite stores the three
  handles it got, and \<^verbatim>\<open>nodes\<close> only reads them.
\<close>

theorem children_declared_once_under_composite:
  assumes "subscriber a = Some i"
  shows "\<exists>c h r p. construct eng nm a reg = (Inr c, reg @ [h, r, p])
     \<and> createFunction eng nm a (output (iot a)) (normalizeFilter a) reg = (Inr (fn c), reg @ [h])
     \<and> createRule eng nm a (normalizeFilter a) (fn c) (reg @ [h]) = (rule c, reg @ [h, r])
     \<and> createPermission eng nm (fn c) (rule c) (reg @ [h, r]) = (permission c, reg @ [h, r, p])
     \<and> parent h = nm \<and> parent r = nm \<and> parent p = nm
     \<and> distinct [identity h, identity r, identity p]
     \<and> res_id (fn c) = identity h \<and> res_id (rule c) = identity r
     \<and> res_id (permission c) = identity p
     \<and> map snd (nodes c) = [fn c, permission c, rule c]"
  unfolding construct_children [OF assms]
  by (intro exI conjI, rule refl)
     (simp_all add: createFunction_Some [OF assms] createRule_eq createPermission_eq
        nodes_def handleOf_def)

theorem children_declared_once_under_composite_witness:
  "subscriber hookedArgs = Some (Plain (FunctionArgs [(''handler'', Str ''other.entry'')]))
   \<and> (\<exists>c h r p. construct exampleEngine ''Sub'' hookedArgs [] = (Inr c, [h, r, p])
     \<and> createFunction exampleEngine ''Sub'' hookedArgs (output (iot hookedArgs))
          (normalizeFilter hookedArgs) [] = (Inr (fn c), [h])
     \<and> createRule exampleEngine ''Sub'' hookedArgs (normalizeFilter hookedArgs) (fn c) [h]
          = (rule c, [h, r])
     \<and> createPermission exampleEngine ''Sub'' (fn c) (rule c) [h, r]
          = (permission c, [h, r, p])
     \<and> parent h = ''Sub'' \<and> parent r = ''Sub'' \<and> parent p = ''Sub''
     \<and> distinct [identity h, identity r, identity p]
     \<and> res_id (fn c) = identity h \<and> res_id (rule c) = identity r
     \<and> res_id (permission c) = identity p
     \<and> map snd (nodes c) = [fn c, permission c, rule c])"
proof -
  have s: "subscriber hookedArgs = Some (Plain (FunctionArgs [(''handler'', Str ''other.entry'')]))"
    by (simp add: hookedArgs_def)
  show ?thesis
    using s children_declared_once_under_composite [OF s, of exampleEngine "''Sub''" "[]"]
    by simp
qed

text \<open>
  C9. The draft of the permission has the action \<^verbatim>\<open>lambda:InvokeFunction\<close>, the
  principal \<^verbatim>\<open>iot.amazonaws.com\<close>, the name output of the handler as its function and
  the ARN output of the rule as its source ARN, for every subscriber definition, every
  other input and every transform map: \<^verbatim>\<open>createPermission\<close> reads none of the
  arguments and applies no transform.
\<close>

theorem permission_draft_fixed:
  "draftArgs (last (snd (createPermission eng nm f r reg)))
     = [(''action'', Str ''lambda:InvokeFunction''),
        (''function'', Dv (res_name f)),
        (''principal'', Str ''iot.amazonaws.com''),
        (''sourceArn'', Dv (res_arn r))]
   \<and> (\<exists>c h r p.
         construct eng nm (a\<lparr>subscriber := Some i, transform_arg := t\<rparr>) reg
           = (Inr c, reg @ [h, r, p])
         \<and> draftArgs p = [(''action'', Str ''lambda:InvokeFunction''),
                          (''function'', Dv (res_name (fn c))),
                          (''principal'', Str ''iot.amazonaws.com''),
                          (''sourceArn'', Dv (res_arn (rule c)))]
         \<and> res_id (fn c) = identity h \<and> res_id (rule c) = identity r)"
proof -
  have s: "subscriber (a\<lparr>subscriber := Some i, transform_arg := t\<rparr>) = Some i"
    by simp
  have "\<exists>c h r p.
         construct eng nm (a\<lparr>subscriber := Some i, transform_arg := t\<rparr>) reg
           = (Inr c, reg @ [h, r, p])
         \<and> draftArgs p = [(''action'', Str ''lambda:InvokeFunction''),
                          (''function'', Dv (res_name (fn c))),
                          (''principal'', Str ''iot.amazonaws.com''),
                          (''sourceArn'', Dv (res_arn (rule c)))]
         \<and> res_id (fn c) = identity h \<and> res_id (rule c) = identity r"
    unfolding construct_children [OF s]
    by (intro exI conjI, rule refl)
       (simp_all add: handleOf_def createFunction_node [OF s])
  then show ?thesis
    by (simp add: createPermission_eq)
qed

text \<open>
  C10. For one name and any two argument sets with a subscriber definition (and any
  two engines and registries), the identities of the three children are the name
  followed by \<^verbatim>\<open>Handler\<close>, \<^verbatim>\<open>Rule\<close> and \<^verbatim>\<open>Permission\<close>, the same in both
  constructions.
\<close>

theorem child_identities_from_name:
  assumes "subscriber a = Some i" and "subscriber a' = Some i'"
  shows "\<exists>c h r p c' h' r' p'.
       construct eng nm a reg = (Inr c, reg @ [h, r, p])
     \<and> construct eng' nm a' reg' = (Inr c', reg' @ [h', r', p'])
     \<and> map identity [h, r, p] = [nm @ ''Handler'', nm @ ''Rule'', nm @ ''Permission'']
     \<and> map identity [h', r', p'] = map identity [h, r, p]
     \<and> map res_id [fn c, rule c, permission c]
          = [nm @ ''Handler'', nm @ ''Rule'', nm @ ''Permission'']
     \<and> map res_id [fn c', rule c', permission c'] = map res_id [fn c, rule c, permission c]"
  unfolding construct_children [OF assms(1)] construct_children [OF assms(2)]
  by (intro exI conjI, rule refl, rule refl)
     (simp_all add: handleOf_def createFunction_node [OF assms(1)]
        createFunction_node [OF assms(2)])

theorem child_identities_from_name_witness:
  "subscriber exampleArgs = Some (Plain (Handler ''handler.entry''))
   \<and> subscriber hookedArgs = Some (Plain (FunctionArgs [(''handler'', Str ''other.entry'')]))
   \<and> (\<exists>c h r p c' h' r' p'.
       construct exampleEngine ''Sub'' exampleArgs [] = (Inr c, [h, r, p])
     \<and> construct exampleEngine ''Sub'' hookedArgs [] = (Inr c', [h', r', p'])
     \<and> map identity [h, r, p] = [''SubHandler'', ''SubRule'', ''SubPermission'']
     \<and> map identity [h', r', p'] = map identity [h, r, p]
     \<and> map res_id [fn c, rule c, permission c] = [''SubHandler'', ''SubRule'', ''SubPermission'']
     \<and> map res_id [fn c', rule c', permission c'] = map res_id [fn c, rule c, permission c])"
proof -
  have s: "subscriber exampleArgs = Some (Plain (Handler ''handler.entry''))"
    by (simp add: exampleArgs_def)
  have s': "subscriber hookedArgs
      = Some (Plain (FunctionArgs [(''handler'', Str ''other.entry'')]))"
    by (simp add: hookedArgs_def)
  show ?thesis
    using s s' child_identities_from_name [OF s s', of exampleEngine "''Sub''" "[]"
        exampleEngine "[]"]
    by simp
qed

end
